theory Spec2Isabelle
  imports Complex_Main "HOL-Library.Char_ord" "HOL-Library.List_Lexorder"
begin

section \<open>The recommendation route: data model\<close>

text \<open>
  The route \<^verbatim>\<open>src/app/api/predict/route.ts\<close> keeps a parsed CSV dataset in a module
  variable and answers two requests: \<^verbatim>\<open>GET\<close> returns the form schema, \<^verbatim>\<open>POST\<close>
  returns the tip of the dataset row that matches the submitted answers best.

  A JavaScript object is modelled as the list of its own enumerable properties in
  \<^verbatim>\<open>Object.keys\<close> order. Beside them a plain object has the properties it inherits
  from \<^verbatim>\<open>Object.prototype\<close>: \<^verbatim>\<open>row[key]\<close> and \<^verbatim>\<open>key in row\<close> see them,
  \<^verbatim>\<open>Object.keys\<close> does not.
\<close>

definition Object_prototype :: "string list" where
  "Object_prototype =
     [''constructor'', ''__defineGetter__'', ''__defineSetter__'', ''hasOwnProperty'',
      ''__lookupGetter__'', ''__lookupSetter__'', ''isPrototypeOf'', ''propertyIsEnumerable'',
      ''toString'', ''valueOf'', ''__proto__'', ''toLocaleString'']"

text \<open>
  What a property of a parsed row can hold. The interface \<^verbatim>\<open>DataRow\<close> declares
  strings, and the cast \<^verbatim>\<open>parsedData.data as DataRow[]\<close> checks nothing: a row with
  more fields than the header has its surplus fields as an array under the key
  \<^verbatim>\<open>__parsed_extra\<close>. An array is an object with an identity of its own, here a
  number; two arrays with the same elements are two values. \<open>Proto key\<close> is the value
  of the property \<open>key\<close> of \<^verbatim>\<open>Object.prototype\<close>, a built-in function or, for
  \<^verbatim>\<open>__proto__\<close>, the prototype itself.
\<close>

datatype cell = Str string | Arr nat "string list" | Proto string

type_synonym DataRow = "(string \<times> cell) list"

definition TIPS :: string where
  "TIPS = ''Self-care tips that might help you out''"

definition Object_keys :: "(string \<times> 'v) list \<Rightarrow> string list" where
  "Object_keys obj = map fst obj"

text \<open>
  \<^verbatim>\<open>row[key]\<close>: the own property if there is one, else the inherited one, else
  \<^verbatim>\<open>undefined\<close> (\<open>None\<close>).
\<close>

definition lookup :: "DataRow \<Rightarrow> string \<Rightarrow> cell option" where
  "lookup obj key =
     (case map_of obj key of
        Some v \<Rightarrow> Some v
      | None \<Rightarrow> if key \<in> set Object_prototype then Some (Proto key) else None)"

text \<open>The operator \<^verbatim>\<open>key in obj\<close>, which sees inherited properties too.\<close>

definition has_key :: "string \<Rightarrow> DataRow \<Rightarrow> bool" where
  "has_key key obj = (key \<in> set (Object_keys obj) \<or> key \<in> set Object_prototype)"

text \<open>
  Truthiness of such a value, as \<^verbatim>\<open>if (row[colname])\<close> sees it: only the empty string
  is falsy.
\<close>

fun cell_truthy :: "cell \<Rightarrow> bool" where
  "cell_truthy (Str s) = (s \<noteq> [])"
| "cell_truthy (Arr ref xs) = True"
| "cell_truthy (Proto key) = True"

text \<open>
  The string of a value, by which \<^verbatim>\<open>sort()\<close> without a comparator orders: an array
  joins its elements with commas, a built-in function prints as Node prints it.
\<close>

fun join :: "string list \<Rightarrow> string" where
  "join [] = []"
| "join [x] = x"
| "join (x # y # rest) = x @ '','' @ join (y # rest)"

fun ToString :: "cell \<Rightarrow> string" where
  "ToString (Str s) = s"
| "ToString (Arr ref xs) = join xs"
| "ToString (Proto key) =
     (if key = ''__proto__'' then ''[object Object]''
      else ''function '' @ (if key = ''constructor'' then ''Object'' else key)
             @ ''() { [native code] }'')"

subsection \<open>Numbers\<close>

text \<open>
  The only arithmetic on non-integers is the quotient \<^verbatim>\<open>score / totalFields\<close> of two
  array lengths. Its value is kept exactly, as a rational, with the two special results
  of a division by zero written out. Both operands are natural numbers below \<open>2^53\<close>
  and \<open>score \<le> totalFields\<close>, where the rounded quotient of IEEE doubles is ordered as
  the exact quotient is, so the comparisons of the source are the comparisons here.
\<close>

datatype number = NaN | Infinity | NegInfinity | Finite rat

fun js_div :: "nat \<Rightarrow> nat \<Rightarrow> number" where
  "js_div a b =
     (if b = 0 then (if a = 0 then NaN else Infinity)
      else Finite (of_nat a / of_nat b))"

text \<open>The operator \<^verbatim>\<open>>\<close> on numbers: every comparison with \<^verbatim>\<open>NaN\<close> is false.\<close>

fun js_gt :: "number \<Rightarrow> number \<Rightarrow> bool" where
  "js_gt NaN y = False"
| "js_gt x NaN = False"
| "js_gt (Finite a) (Finite b) = (b < a)"
| "js_gt Infinity Infinity = False"
| "js_gt Infinity y = True"
| "js_gt x Infinity = False"
| "js_gt NegInfinity y = False"
| "js_gt x NegInfinity = True"

subsection \<open>JSON values\<close>

datatype json =
    JNull
  | JBool bool
  | JNumber number
  | JString string
  | JArray "json list"
  | JObject "(string \<times> json) list"

text \<open>Truthiness, as the operator \<^verbatim>\<open>!\<close> sees it.\<close>

fun truthy :: "json \<Rightarrow> bool" where
  "truthy JNull = False"
| "truthy (JBool b) = b"
| "truthy (JNumber n) = (n \<noteq> NaN \<and> n \<noteq> Finite 0)"
| "truthy (JString s) = (s \<noteq> [])"
| "truthy (JArray xs) = True"
| "truthy (JObject kvs) = True"

fun typeof :: "json \<Rightarrow> string" where
  "typeof JNull = ''object''"
| "typeof (JBool b) = ''boolean''"
| "typeof (JNumber n) = ''number''"
| "typeof (JString s) = ''string''"
| "typeof (JArray xs) = ''object''"
| "typeof (JObject kvs) = ''object''"

text \<open>Decimal index keys of an array: \<^verbatim>\<open>"0"\<close>, \<^verbatim>\<open>"1"\<close>, ...\<close>

fun digit :: "nat \<Rightarrow> char" where
  "digit n = char_of (48 + n)"

fun String_of_index :: "nat \<Rightarrow> string" where
  "String_of_index n =
     (if n < 10 then [digit n] else String_of_index (n div 10) @ [digit (n mod 10)])"

subsection \<open>Errors\<close>

text \<open>
  What the source can throw: a rejected \<^verbatim>\<open>fs.readFile\<close>, an \<^verbatim>\<open>Error\<close> with its
  message, a \<^verbatim>\<open>TypeError\<close> of the runtime, and the rejection of \<^verbatim>\<open>req.json()\<close> on
  a body that is not JSON.
\<close>

datatype error = FsError | Error string | TypeError | SyntaxError

text \<open>
  \<^verbatim>\<open>Object.entries\<close>: an object gives its own properties, an array its elements under
  their index keys, a string its characters likewise, a number or a boolean nothing;
  \<^verbatim>\<open>null\<close> raises.
\<close>

fun Object_entries :: "json \<Rightarrow> error + (string \<times> json) list" where
  "Object_entries (JObject kvs) = Inr kvs"
| "Object_entries (JArray xs) = Inr (zip (map String_of_index [0..<length xs]) xs)"
| "Object_entries (JString s) =
     Inr (zip (map String_of_index [0..<length s]) (map (\<lambda>c. JString [c]) s))"
| "Object_entries (JNumber n) = Inr []"
| "Object_entries (JBool b) = Inr []"
| "Object_entries JNull = Inl TypeError"

text \<open>
  \<^verbatim>\<open>row[key] === value\<close>: the right side is a freshly parsed JSON value, so the two
  are strictly equal exactly when both are the same string. An array or a built-in
  object on the left is never identical to a value that \<^verbatim>\<open>req.json()\<close> has just made.
\<close>

fun strict_eq :: "cell option \<Rightarrow> json \<Rightarrow> bool" where
  "strict_eq (Some (Str s)) (JString t) = (s = t)"
| "strict_eq x v = False"

section \<open>The matcher\<close>

text \<open>The inner loop of \<^verbatim>\<open>findBestMatch\<close>: one point for each exact match.\<close>

fun count_score :: "DataRow \<Rightarrow> (string \<times> json) list \<Rightarrow> nat \<Rightarrow> nat" where
  "count_score row [] score = score"
| "count_score row ((key, val) # rest) score =
     count_score row rest (if strict_eq (lookup row key) val then score + 1 else score)"

text \<open>The outer loop, carrying \<^verbatim>\<open>bestMatch\<close> and \<^verbatim>\<open>maxScore\<close>.\<close>

fun scan_rows ::
  "(string \<times> json) list \<Rightarrow> nat \<Rightarrow> DataRow list \<Rightarrow> DataRow option \<Rightarrow> number \<Rightarrow> DataRow option"
where
  "scan_rows inputEntries totalFields [] bestMatch maxScore = bestMatch"
| "scan_rows inputEntries totalFields (row # rows) bestMatch maxScore =
     (let score = count_score row inputEntries 0;
          normalizedScore = js_div score totalFields
      in if js_gt normalizedScore maxScore
         then scan_rows inputEntries totalFields rows (Some row) normalizedScore
         else scan_rows inputEntries totalFields rows bestMatch maxScore)"

text \<open>
  \<^verbatim>\<open>mlData[0]\<close> of an empty array is \<^verbatim>\<open>undefined\<close>, and so is the result then.
\<close>

definition findBestMatch :: "json \<Rightarrow> DataRow list \<Rightarrow> error + DataRow option" where
  "findBestMatch userInput mlData =
     (let bestMatch = (case mlData of [] \<Rightarrow> None | r # _ \<Rightarrow> Some r);
          maxScore = Finite (- 1)
      in case Object_entries userInput of
           Inl e \<Rightarrow> Inl e
         | Inr inputEntries \<Rightarrow>
             (let totalFields = length inputEntries
              in Inr (scan_rows inputEntries totalFields mlData bestMatch maxScore)))"

subsection \<open>The matcher by raw counts\<close>

text \<open>
  The number of supplied fields a row matches exactly, written as a count rather than
  as the loop that computes it.
\<close>

definition matches :: "DataRow \<Rightarrow> (string \<times> json) list \<Rightarrow> nat" where
  "matches row inputEntries =
     length (filter (\<lambda>(key, val). strict_eq (lookup row key) val) inputEntries)"

text \<open>
  The variant of the matcher the specification compares with: each row is scored by its
  raw count of exact matches, with no division by the number of supplied fields.
\<close>

fun scan_rows_raw ::
  "(string \<times> json) list \<Rightarrow> DataRow list \<Rightarrow> DataRow option \<Rightarrow> int \<Rightarrow> DataRow option"
where
  "scan_rows_raw inputEntries [] bestMatch maxScore = bestMatch"
| "scan_rows_raw inputEntries (row # rows) bestMatch maxScore =
     (let score = int (count_score row inputEntries 0)
      in if score > maxScore
         then scan_rows_raw inputEntries rows (Some row) score
         else scan_rows_raw inputEntries rows bestMatch maxScore)"

definition findBestMatch_raw :: "json \<Rightarrow> DataRow list \<Rightarrow> error + DataRow option" where
  "findBestMatch_raw userInput mlData =
     (let bestMatch = (case mlData of [] \<Rightarrow> None | r # _ \<Rightarrow> Some r);
          maxScore = - 1
      in case Object_entries userInput of
           Inl e \<Rightarrow> Inl e
         | Inr inputEntries \<Rightarrow> Inr (scan_rows_raw inputEntries mlData bestMatch maxScore))"

section \<open>Loading and caching the dataset\<close>

datatype column_type = categorical

record Column =
  name :: string
  type :: column_type
  options :: "cell list"

record CacheData =
  mlData :: "DataRow list"
  columnInfo :: "Column list"
  lastUpdated :: int

definition CACHE_DURATION :: int where
  "CACHE_DURATION = 1000 * 60 * 60"

text \<open>
  What a request finds outside the program: the rows \<^verbatim>\<open>Papa.parse\<close> makes of the file
  (\<open>None\<close> when \<^verbatim>\<open>fs.readFile\<close> rejects), and the two readings of the clock, the
  one \<^verbatim>\<open>getCachedData\<close> compares and the one \<^verbatim>\<open>loadAndProcessData\<close> stores.
\<close>

record env =
  csv :: "DataRow list option"
  now_check :: int
  now_load :: int

text \<open>
  The state of the module is the variable \<^verbatim>\<open>cache\<close>. Beside it the model keeps the
  list of the calls of \<^verbatim>\<open>fs.readFile\<close> and \<^verbatim>\<open>findBestMatch\<close> made so far, latest
  first, so that "reads the file" and "invokes the matcher" are observable.

  The functions \<open>getCachedData\<close>, \<open>POST\<close> and \<open>GET\<close> below run a request from its
  start to its answer with no other request in between. The handlers are
  \<^verbatim>\<open>async\<close>: what happens when requests overlap is in the section on overlapping
  requests, which runs the same code piece by piece between its \<^verbatim>\<open>await\<close>s.
\<close>

datatype call = ReadFile | FindBestMatch

record server =
  cache :: "CacheData option"
  calls :: "call list"

text \<open>
  A \<^verbatim>\<open>Set\<close> keeps its elements in insertion order, each once: strings by their
  text, objects by their identity.
\<close>

definition Set_add :: "cell list \<Rightarrow> cell \<Rightarrow> cell list" where
  "Set_add uniqueValues v = (if v \<in> set uniqueValues then uniqueValues else uniqueValues @ [v])"

text \<open>
  The loop over the rows for one column: \<^verbatim>\<open>if (row[colname])\<close> fails for the empty
  string and for \<^verbatim>\<open>undefined\<close>, and holds for every other value.
  \<^verbatim>\<open>Array.from(uniqueValues).sort()\<close> orders the values by the code units of their
  strings, which is the lexicographic order of \<open>string\<close> here, and is stable.
\<close>

fun collect_values :: "string \<Rightarrow> DataRow list \<Rightarrow> cell list \<Rightarrow> cell list" where
  "collect_values colname [] uniqueValues = uniqueValues"
| "collect_values colname (row # rows) uniqueValues =
     collect_values colname rows
       (case lookup row colname of
          None \<Rightarrow> uniqueValues
        | Some v \<Rightarrow> if cell_truthy v then Set_add uniqueValues v else uniqueValues)"

definition make_column :: "DataRow list \<Rightarrow> string \<Rightarrow> Column" where
  "make_column rows colname =
     \<lparr>name = colname, type = categorical,
      options = sort_key ToString (collect_values colname rows [])\<rparr>"

text \<open>
  \<^verbatim>\<open>loadAndProcessData\<close> calls \<^verbatim>\<open>fs.readFile\<close> and waits for it. What it does
  once the read has resolved or rejected touches no variable of the module:
  \<open>loadAndProcessData_result\<close> is what it returns then.
\<close>

definition loadAndProcessData_result :: "env \<Rightarrow> error + CacheData" where
  "loadAndProcessData_result e =
     (case csv e of
        None \<Rightarrow> Inl FsError
      | Some rows \<Rightarrow>
          (case rows of
             [] \<Rightarrow> Inl (Error ''Invalid data structure in CSV'')
           | first # _ \<Rightarrow>
               if \<not> has_key TIPS first
               then Inl (Error ''Invalid data structure in CSV'')
               else
                 (let headers = filter (\<lambda>header. header \<noteq> TIPS) (Object_keys first);
                      columnInfo = map (make_column rows) headers
                  in Inr \<lparr>mlData = rows, columnInfo = columnInfo, lastUpdated = now_load e\<rparr>)))"

definition loadAndProcessData :: "env \<Rightarrow> server \<Rightarrow> (error + CacheData) \<times> server" where
  "loadAndProcessData e s =
     (let s' = s\<lparr>calls := ReadFile # calls s\<rparr>
      in (loadAndProcessData_result e, s'))"

text \<open>The test \<^verbatim>\<open>!cache || Date.now() - cache.lastUpdated > CACHE_DURATION\<close>.\<close>

definition refresh_due :: "env \<Rightarrow> server \<Rightarrow> bool" where
  "refresh_due e s =
     (case cache s of
        None \<Rightarrow> True
      | Some c \<Rightarrow> now_check e - lastUpdated c > CACHE_DURATION)"

definition getCachedData :: "env \<Rightarrow> server \<Rightarrow> (error + CacheData) \<times> server" where
  "getCachedData e s =
     (let refresh =
            (case loadAndProcessData e s of
               (Inl err, s') \<Rightarrow> (Inl (Error ''Failed to load data''), s')
             | (Inr c, s') \<Rightarrow> (Inr c, s'\<lparr>cache := Some c\<rparr>))
      in case cache s of
           None \<Rightarrow> refresh
         | Some c \<Rightarrow>
             if now_check e - lastUpdated c > CACHE_DURATION then refresh else (Inr c, s))"

section \<open>The two handlers\<close>

record response =
  status :: nat
  success :: bool
  error :: "string option"
  prediction :: "cell option"
  columns :: "Column list option"

text \<open>
  The body of a \<^verbatim>\<open>POST\<close> request is what \<^verbatim>\<open>req.json()\<close> resolves to, \<open>None\<close> when
  it rejects because the body is not JSON.
\<close>

record request =
  body :: "json option"

definition POST :: "request \<Rightarrow> env \<Rightarrow> server \<Rightarrow> response \<times> server" where
  "POST req e s =
     (let failed = \<lparr>status = 500, success = False,
                     error = Some ''Failed to generate recommendation'',
                     prediction = None, columns = None\<rparr>
      in case getCachedData e s of
           (Inl err, s1) \<Rightarrow> (failed, s1)
         | (Inr c, s1) \<Rightarrow>
             (case body req of
                None \<Rightarrow> (failed, s1)
              | Some userInput \<Rightarrow>
                  if \<not> truthy userInput \<or> typeof userInput \<noteq> ''object''
                  then (\<lparr>status = 400, success = False,
                         error = Some ''Invalid input format'',
                         prediction = None, columns = None\<rparr>, s1)
                  else
                    (let s2 = s1\<lparr>calls := FindBestMatch # calls s1\<rparr>
                     in case findBestMatch userInput (mlData c) of
                          Inl err \<Rightarrow> (failed, s2)
                        | Inr None \<Rightarrow> (failed, s2)
                        | Inr (Some bestMatch) \<Rightarrow>
                            (\<lparr>status = 200, success = True, error = None,
                              prediction = lookup bestMatch TIPS, columns = None\<rparr>, s2))))"

definition GET :: "env \<Rightarrow> server \<Rightarrow> response \<times> server" where
  "GET e s =
     (case getCachedData e s of
        (Inl err, s1) \<Rightarrow>
          (\<lparr>status = 500, success = False, error = Some ''Failed to load form structure'',
            prediction = None, columns = None\<rparr>, s1)
      | (Inr c, s1) \<Rightarrow>
          (\<lparr>status = 200, success = True, error = None, prediction = None,
            columns = Some (columnInfo c)\<rparr>, s1))"

text \<open>
  What \<^verbatim>\<open>loadAndProcessData\<close> establishes of the entry it returns: the dataset has a
  first row, that row has the tip column, and the schema is the one derived from the
  dataset.
\<close>

definition valid_cache :: "CacheData \<Rightarrow> bool" where
  "valid_cache c =
     (case mlData c of
        [] \<Rightarrow> False
      | first # _ \<Rightarrow>
          has_key TIPS first \<and>
          columnInfo c =
            map (make_column (mlData c)) (filter (\<lambda>header. header \<noteq> TIPS) (Object_keys first)))"

definition cache_ok :: "server \<Rightarrow> bool" where
  "cache_ok s = (case cache s of None \<Rightarrow> True | Some c \<Rightarrow> valid_cache c)"

datatype incoming = Get | Post request


section \<open>Overlapping requests\<close>

text \<open>
  A handler gives way to other requests at an \<^verbatim>\<open>await\<close>. The only \<^verbatim>\<open>await\<close> with
  the variable \<^verbatim>\<open>cache\<close> on both sides is the one in \<^verbatim>\<open>getCachedData\<close>: the test of
  \<^verbatim>\<open>cache\<close> and the call of \<^verbatim>\<open>fs.readFile\<close> come before it, the assignment to
  \<^verbatim>\<open>cache\<close> after it. So a request runs in one piece if the cache is fresh, and in
  two pieces if a refresh is due: up to the call of \<^verbatim>\<open>fs.readFile\<close>, and from the
  end of the read to the answer. What follows \<^verbatim>\<open>getCachedData\<close> in a handler reads
  the entry it got, not the variable.
\<close>

text \<open>
  \<^verbatim>\<open>getCachedData\<close> up to its \<^verbatim>\<open>await\<close>: \<open>Some c\<close> if it returns the cache at once,
  \<open>None\<close> if it has called \<^verbatim>\<open>fs.readFile\<close> and waits.
\<close>

definition getCachedData_begin :: "env \<Rightarrow> server \<Rightarrow> CacheData option \<times> server" where
  "getCachedData_begin e s =
     (case cache s of
        None \<Rightarrow> (None, s\<lparr>calls := ReadFile # calls s\<rparr>)
      | Some c \<Rightarrow>
          if now_check e - lastUpdated c > CACHE_DURATION
          then (None, s\<lparr>calls := ReadFile # calls s\<rparr>)
          else (Some c, s))"

text \<open>\<^verbatim>\<open>getCachedData\<close> from the end of the read: the assignment, or the error.\<close>

definition getCachedData_resume :: "env \<Rightarrow> server \<Rightarrow> (error + CacheData) \<times> server" where
  "getCachedData_resume e s =
     (case loadAndProcessData_result e of
        Inl err \<Rightarrow> (Inl (Error ''Failed to load data''), s)
      | Inr c \<Rightarrow> (Inr c, s\<lparr>cache := Some c\<rparr>))"

text \<open>The rest of each handler, from what \<^verbatim>\<open>getCachedData\<close> gave it.\<close>

definition GET_rest :: "error + CacheData \<Rightarrow> server \<Rightarrow> response \<times> server" where
  "GET_rest r s1 =
     (case r of
        Inl err \<Rightarrow>
          (\<lparr>status = 500, success = False, error = Some ''Failed to load form structure'',
            prediction = None, columns = None\<rparr>, s1)
      | Inr c \<Rightarrow>
          (\<lparr>status = 200, success = True, error = None, prediction = None,
            columns = Some (columnInfo c)\<rparr>, s1))"

definition POST_rest :: "request \<Rightarrow> error + CacheData \<Rightarrow> server \<Rightarrow> response \<times> server" where
  "POST_rest req r s1 =
     (let failed = \<lparr>status = 500, success = False,
                     error = Some ''Failed to generate recommendation'',
                     prediction = None, columns = None\<rparr>
      in case r of
           Inl err \<Rightarrow> (failed, s1)
         | Inr c \<Rightarrow>
             (case body req of
                None \<Rightarrow> (failed, s1)
              | Some userInput \<Rightarrow>
                  if \<not> truthy userInput \<or> typeof userInput \<noteq> ''object''
                  then (\<lparr>status = 400, success = False,
                         error = Some ''Invalid input format'',
                         prediction = None, columns = None\<rparr>, s1)
                  else
                    (let s2 = s1\<lparr>calls := FindBestMatch # calls s1\<rparr>
                     in case findBestMatch userInput (mlData c) of
                          Inl err \<Rightarrow> (failed, s2)
                        | Inr None \<Rightarrow> (failed, s2)
                        | Inr (Some bestMatch) \<Rightarrow>
                            (\<lparr>status = 200, success = True, error = None,
                              prediction = lookup bestMatch TIPS, columns = None\<rparr>, s2))))"

fun handle_rest :: "incoming \<Rightarrow> error + CacheData \<Rightarrow> server \<Rightarrow> response \<times> server" where
  "handle_rest Get r s = GET_rest r s"
| "handle_rest (Post req) r s = POST_rest req r s"

text \<open>
  The module with requests in flight: its state, the requests that wait for their read
  of the file, in the order they began, and the answers given so far.
\<close>

record system =
  module_state :: server
  waiting :: "(incoming \<times> env) list"
  answered :: "response list"

text \<open>
  One step of the event loop: a request arrives and runs to its answer or to its
  \<^verbatim>\<open>await\<close>; or the read of the \<open>i\<close>-th waiting request ends and the request runs
  to its answer.
\<close>

datatype step = Arrive incoming env | Complete nat

fun run_step :: "step \<Rightarrow> system \<Rightarrow> system" where
  "run_step (Arrive r e) sys =
     (case getCachedData_begin e (module_state sys) of
        (Some c, s1) \<Rightarrow>
          (case handle_rest r (Inr c) s1 of
             (resp, s2) \<Rightarrow> sys\<lparr>module_state := s2, answered := answered sys @ [resp]\<rparr>)
      | (None, s1) \<Rightarrow> sys\<lparr>module_state := s1, waiting := waiting sys @ [(r, e)]\<rparr>)"
| "run_step (Complete i) sys =
     (if i < length (waiting sys)
      then (case waiting sys ! i of
              (r, e) \<Rightarrow>
                (case getCachedData_resume e (module_state sys) of
                   (res, s1) \<Rightarrow>
                     (case handle_rest r res s1 of
                        (resp, s2) \<Rightarrow>
                          sys\<lparr>module_state := s2,
                              waiting := take i (waiting sys) @ drop (Suc i) (waiting sys),
                              answered := answered sys @ [resp]\<rparr>)))
      else sys)"




subsection \<open>The states of the module\<close>

text \<open>
  \<^verbatim>\<open>cache\<close> starts as \<^verbatim>\<open>null\<close>, and only the two handlers touch it: run as a
  whole, or piece by piece among other requests that wait.
\<close>

definition initial :: server where
  "initial = \<lparr>cache = None, calls = []\<rparr>"

inductive reachable :: "server \<Rightarrow> bool" where
  reachable_initial: "reachable initial"
| reachable_POST: "reachable s \<Longrightarrow> reachable (snd (POST req e s))"
| reachable_GET: "reachable s \<Longrightarrow> reachable (snd (GET e s))"
| reachable_step:
    "reachable s \<Longrightarrow>
     reachable (module_state (run_step st \<lparr>module_state = s, waiting = w, answered = out\<rparr>))"

subsection \<open>A small dataset to run the program on\<close>

definition example_rows :: "DataRow list" where
  "example_rows =
     [[(''Mood'', Str ''Sad''), (''Sleep'', Str ''Poor''), (TIPS, Str ''Rest'')],
      [(''Mood'', Str ''Sad''), (''Sleep'', Str ''Good''), (TIPS, Str ''Walk'')],
      [(''Mood'', Str ''Happy''), (''Sleep'', Str ''Good''), (TIPS, Str ''Sing'')]]"

definition example_env :: env where
  "example_env = \<lparr>csv = Some example_rows, now_check = 0, now_load = 5\<rparr>"

definition example_answers :: "(string \<times> json) list" where
  "example_answers = [(''Mood'', JString ''Sad''), (''Sleep'', JString ''Good'')]"

text \<open>The state after a first \<^verbatim>\<open>GET\<close> has loaded that dataset.\<close>

definition example_cache :: CacheData where
  "example_cache =
     \<lparr>mlData = example_rows,
      columnInfo =
        [\<lparr>name = ''Mood'', type = categorical, options = [Str ''Happy'', Str ''Sad'']\<rparr>,
         \<lparr>name = ''Sleep'', type = categorical, options = [Str ''Good'', Str ''Poor'']\<rparr>],
      lastUpdated = 5\<rparr>"

definition example_server :: server where
  "example_server = \<lparr>cache = Some example_cache, calls = [ReadFile]\<rparr>"



definition unreadable_env :: env where
  "unreadable_env = \<lparr>csv = None, now_check = 3600006, now_load = 3600007\<rparr>"

definition empty_env :: env where
  "empty_env = \<lparr>csv = Some [], now_check = 3600006, now_load = 3600007\<rparr>"

text \<open>
  A dataset whose rows have one field more than the header, and one with a header
  \<^verbatim>\<open>constructor\<close> and a second row that is too short to have that field.
\<close>

definition surplus_rows :: "DataRow list" where
  "surplus_rows =
     [[(''Mood'', Str ''Sad''), (TIPS, Str ''Rest''), (''__parsed_extra'', Arr 0 [''x''])],
      [(''Mood'', Str ''Sad''), (TIPS, Str ''Walk''), (''__parsed_extra'', Arr 1 [''x''])]]"

definition surplus_env :: env where
  "surplus_env = \<lparr>csv = Some surplus_rows, now_check = 0, now_load = 5\<rparr>"

definition short_rows :: "DataRow list" where
  "short_rows =
     [[(TIPS, Str ''Rest''), (''constructor'', Str ''a'')],
      [(TIPS, Str ''Walk'')]]"

definition short_env :: env where
  "short_env = \<lparr>csv = Some short_rows, now_check = 0, now_load = 5\<rparr>"




section \<open>Properties of the matcher\<close>

lemma count_score_matches: "count_score row es n = n + matches row es"
  by (induction es arbitrary: n) (auto simp: matches_def)

lemma scan_rows_raw_eq:
  assumes "0 < tot"
    and "\<And>a::nat. (m < of_nat a / of_nat tot) = (k < int a)"
  shows "scan_rows es tot rows best (Finite m) = scan_rows_raw es rows best k"
  using assms(2)
proof (induction rows arbitrary: best m k)
  case Nil
  then show ?case by simp
next
  case (Cons row rows)
  let ?a = "count_score row es 0"
  have step: "(of_nat ?a / (of_nat tot :: rat) < of_nat b / of_nat tot) = (int ?a < int b)" for b
    using assms(1) by (simp add: divide_less_cancel)
  show ?case
  proof (cases "k < int ?a")
    case True
    then have "m < of_nat ?a / of_nat tot" using Cons.prems by simp
    with True assms(1) show ?thesis
      using Cons.IH [of "of_nat ?a / of_nat tot" "int ?a" "Some row"] step
      by (simp add: Let_def)
  next
    case False
    then have "\<not> m < of_nat ?a / of_nat tot" using Cons.prems by simp
    with False assms(1) show ?thesis
      using Cons.IH [of m k best] Cons.prems
      by (simp add: Let_def)
  qed
qed

lemma scan_rows_raw_split:
  "(scan_rows_raw es rows best k = best \<and> (\<forall>r \<in> set rows. int (matches r es) \<le> k))
   \<or> (\<exists>pre row post. rows = pre @ row # post \<and> scan_rows_raw es rows best k = Some row
        \<and> k < int (matches row es)
        \<and> (\<forall>r \<in> set pre. matches r es < matches row es)
        \<and> (\<forall>r \<in> set post. matches r es \<le> matches row es))"
proof (induction rows arbitrary: best k)
  case Nil
  then show ?case by simp
next
  case (Cons x rows)
  show ?case
  proof (cases "k < int (matches x es)")
    case True
    from Cons.IH [of "Some x" "int (matches x es)"]
    show ?thesis
    proof
      assume h: "scan_rows_raw es rows (Some x) (int (matches x es)) = Some x
                 \<and> (\<forall>r\<in>set rows. int (matches r es) \<le> int (matches x es))"
      have "x # rows = [] @ x # rows" by simp
      with h True show ?thesis
        by (intro disjI2 exI[of _ "[]"] exI[of _ x] exI[of _ rows])
           (simp add: count_score_matches)
    next
      assume "\<exists>pre row post. rows = pre @ row # post
                \<and> scan_rows_raw es rows (Some x) (int (matches x es)) = Some row
                \<and> int (matches x es) < int (matches row es)
                \<and> (\<forall>r\<in>set pre. matches r es < matches row es)
                \<and> (\<forall>r\<in>set post. matches r es \<le> matches row es)"
      then obtain pre row post where h: "rows = pre @ row # post"
          "scan_rows_raw es rows (Some x) (int (matches x es)) = Some row"
          "int (matches x es) < int (matches row es)"
          "\<forall>r\<in>set pre. matches r es < matches row es"
          "\<forall>r\<in>set post. matches r es \<le> matches row es"
        by blast
      with True show ?thesis
        by (intro disjI2 exI[of _ "x # pre"] exI[of _ row] exI[of _ post])
           (simp add: count_score_matches)
    qed
  next
    case False
    from Cons.IH [of best k]
    show ?thesis
    proof
      assume "scan_rows_raw es rows best k = best \<and> (\<forall>r\<in>set rows. int (matches r es) \<le> k)"
      with False show ?thesis by (simp add: count_score_matches)
    next
      assume "\<exists>pre row post. rows = pre @ row # post
                \<and> scan_rows_raw es rows best k = Some row
                \<and> k < int (matches row es)
                \<and> (\<forall>r\<in>set pre. matches r es < matches row es)
                \<and> (\<forall>r\<in>set post. matches r es \<le> matches row es)"
      then obtain pre row post where h: "rows = pre @ row # post"
          "scan_rows_raw es rows best k = Some row"
          "k < int (matches row es)"
          "\<forall>r\<in>set pre. matches r es < matches row es"
          "\<forall>r\<in>set post. matches r es \<le> matches row es"
        by blast
      with False show ?thesis
        by (intro disjI2 exI[of _ "x # pre"] exI[of _ row] exI[of _ post])
           (simp add: count_score_matches)
    qed
  qed
qed

lemma scan_rows_no_fields: "scan_rows [] 0 rows best m = best"
  by (induction rows arbitrary: best m) (simp_all add: Let_def)

lemma scan_rows_initial:
  "(m < of_nat a / (of_nat tot :: rat)) = ((- 1 :: int) < int a)" if "m = - 1" for a tot :: nat 
  using that by (simp add: order.strict_trans2 [of "- 1" 0])

lemma findBestMatch_raw_agrees:
  assumes "Object_entries userInput = Inr es" "es \<noteq> []"
  shows "findBestMatch userInput rows = findBestMatch_raw userInput rows"
  using assms scan_rows_raw_eq [of "length es" "- 1" "- 1" es rows]
  by (simp add: findBestMatch_def findBestMatch_raw_def scan_rows_initial)

lemma findBestMatch_split:
  assumes "rows \<noteq> []" "Object_entries userInput = Inr es" "es \<noteq> []"
  shows "\<exists>pre row post. rows = pre @ row # post
           \<and> findBestMatch userInput rows = Inr (Some row)
           \<and> (\<forall>r \<in> set pre. matches r es < matches row es)
           \<and> (\<forall>r \<in> set post. matches r es \<le> matches row es)"
proof -
  obtain x xs where rows: "rows = x # xs" using assms(1) by (cases rows) auto
  have eq: "findBestMatch userInput rows = Inr (scan_rows_raw es rows (Some x) (- 1))"
    using findBestMatch_raw_agrees [OF assms(2,3), of rows] assms(2) rows
    by (simp add: findBestMatch_raw_def)
  have "\<not> (\<forall>r \<in> set rows. int (matches r es) \<le> - 1)"
    using rows by auto
  with scan_rows_raw_split [of es rows "Some x" "- 1"] eq
  show ?thesis by auto
qed

section \<open>Properties of the loader and the cache\<close>




lemma loadAndProcessData_snd:
  "snd (loadAndProcessData e s) = s\<lparr>calls := ReadFile # calls s\<rparr>"
  by (simp add: loadAndProcessData_def Let_def)

lemma loadAndProcessData_fst:
  "fst (loadAndProcessData e s) = loadAndProcessData_result e"
  by (simp add: loadAndProcessData_def Let_def)

lemma loadAndProcessData_fails_iff:
  "(\<exists>err. fst (loadAndProcessData e s) = Inl err) =
     (case csv e of None \<Rightarrow> True | Some [] \<Rightarrow> True | Some (first # rest) \<Rightarrow> \<not> has_key TIPS first)"
  by (simp add: loadAndProcessData_fst loadAndProcessData_result_def Let_def
           split: option.splits list.splits)

lemma loadAndProcessData_Inr:
  assumes "fst (loadAndProcessData e s) = Inr c"
  shows "valid_cache c \<and> csv e = Some (mlData c) \<and> lastUpdated c = now_load e"
  using assms
  by (auto simp: loadAndProcessData_fst loadAndProcessData_result_def valid_cache_def Let_def
           split: option.splits list.splits if_splits)

lemma getCachedData_fresh:
  assumes "\<not> refresh_due e s"
  shows "\<exists>c. cache s = Some c \<and> getCachedData e s = (Inr c, s)"
  using assms by (auto simp: refresh_due_def getCachedData_def Let_def split: option.splits)

lemma getCachedData_refresh:
  assumes "refresh_due e s"
  shows "getCachedData e s =
           (case fst (loadAndProcessData e s) of
              Inl err \<Rightarrow> (Inl (Error ''Failed to load data''), s\<lparr>calls := ReadFile # calls s\<rparr>)
            | Inr c \<Rightarrow> (Inr c, s\<lparr>calls := ReadFile # calls s, cache := Some c\<rparr>))"
proof -
  obtain r s' where ld: "loadAndProcessData e s = (r, s')" by (cases "loadAndProcessData e s")
  then have "s' = s\<lparr>calls := ReadFile # calls s\<rparr>"
    using loadAndProcessData_snd [of e s] by simp
  with ld assms show ?thesis
    by (cases r) (auto simp: refresh_due_def getCachedData_def Let_def split: option.splits)
qed

lemma getCachedData_Inr:
  assumes "fst (getCachedData e s) = Inr c"
  shows "cache (snd (getCachedData e s)) = Some c"
    and "cache_ok s \<Longrightarrow> valid_cache c"
proof -
  show "cache (snd (getCachedData e s)) = Some c"
  proof (cases "refresh_due e s")
    case True
    with assms show ?thesis
      by (simp add: getCachedData_refresh split: sum.splits)
  next
    case False
    with assms getCachedData_fresh [OF False] show ?thesis by auto
  qed
  show "valid_cache c" if "cache_ok s"
  proof (cases "refresh_due e s")
    case True
    with assms have "fst (loadAndProcessData e s) = Inr c"
      by (simp add: getCachedData_refresh split: sum.splits)
    then show ?thesis using loadAndProcessData_Inr by blast
  next
    case False
    with assms that getCachedData_fresh [OF False] show ?thesis
      by (auto simp: cache_ok_def)
  qed
qed

lemma getCachedData_cache_ok:
  assumes "cache_ok s"
  shows "cache_ok (snd (getCachedData e s))"
proof (cases "refresh_due e s")
  case True
  show ?thesis
  proof (cases "fst (loadAndProcessData e s)")
    case (Inl err)
    with True assms show ?thesis by (simp add: getCachedData_refresh cache_ok_def)
  next
    case (Inr c)
    with True loadAndProcessData_Inr [OF Inr] show ?thesis
      by (simp add: getCachedData_refresh cache_ok_def)
  qed
next
  case False
  with assms getCachedData_fresh [OF False] show ?thesis by auto
qed

lemma POST_cache: "cache (snd (POST req e s)) = cache (snd (getCachedData e s))"
  by (simp add: POST_def Let_def split: prod.splits sum.splits option.splits)

lemma GET_snd: "snd (GET e s) = snd (getCachedData e s)"
  by (simp add: GET_def split: prod.splits sum.splits)

section \<open>Properties of the handlers\<close>

lemma POST_object_or_array:
  assumes "fst (getCachedData e s) = Inr c" "body req = Some userInput"
    "truthy userInput" "typeof userInput = ''object''"
    "findBestMatch userInput (mlData c) = Inr (Some row)"
  shows "POST req e s =
           (\<lparr>status = 200, success = True, error = None,
             prediction = lookup row TIPS, columns = None\<rparr>,
            (snd (getCachedData e s))\<lparr>calls := FindBestMatch # calls (snd (getCachedData e s))\<rparr>)"
proof -
  obtain s1 where g: "getCachedData e s = (Inr c, s1)"
    using assms(1) by (cases "getCachedData e s") simp
  show ?thesis
    unfolding POST_def g using assms(2-5) by (simp add: Let_def)
qed

lemma findBestMatch_Some:
  assumes "rows \<noteq> []" "Object_entries userInput = Inr es"
  shows "\<exists>row \<in> set rows. findBestMatch userInput rows = Inr (Some row)"
proof (cases "es = []")
  case True
  with assms show ?thesis
    by (cases rows) (simp_all add: findBestMatch_def scan_rows_no_fields)
next
  case False
  from findBestMatch_split [OF assms False] show ?thesis by auto
qed

lemma valid_cache_nonempty: "valid_cache c \<Longrightarrow> mlData c \<noteq> []"
  by (auto simp: valid_cache_def split: list.splits)

lemma getCachedData_calls:
  "calls (snd (getCachedData e s)) = (if refresh_due e s then ReadFile # calls s else calls s)"
proof (cases "refresh_due e s")
  case True
  then show ?thesis by (simp add: getCachedData_refresh split: sum.splits)
next
  case False
  with getCachedData_fresh [OF False] show ?thesis by auto
qed




lemma getCachedData_fails:
  assumes "refresh_due e s" "fst (loadAndProcessData e s) = Inl err"
  shows "getCachedData e s = (Inl (Error ''Failed to load data''), s\<lparr>calls := ReadFile # calls s\<rparr>)"
  using assms by (simp add: getCachedData_refresh)

subsection \<open>The program on the small dataset\<close>

lemmas example_defs =
  example_rows_def example_env_def example_answers_def example_cache_def example_server_def
  initial_def TIPS_def CACHE_DURATION_def

lemmas program_defs =
  GET_def POST_def getCachedData_def loadAndProcessData_def loadAndProcessData_result_def
  make_column_def Set_add_def has_key_def Object_keys_def Object_prototype_def lookup_def
  findBestMatch_def refresh_due_def Let_def

lemma example_GET:
  "GET example_env initial =
     (\<lparr>status = 200, success = True, error = None, prediction = None,
       columns = Some (columnInfo example_cache)\<rparr>, example_server)"
  by (simp add: example_defs program_defs)

lemma example_getCachedData: "fst (getCachedData example_env initial) = Inr example_cache"
  by (simp add: example_defs program_defs)

lemma reachable_example_server: "reachable example_server"
  using reachable_GET [OF reachable_initial, of example_env] by (simp add: example_GET)

lemma example_rows_nonempty: "example_rows \<noteq> []"
  by (simp add: example_rows_def)

lemma example_answers_nonempty: "example_answers \<noteq> []"
  by (simp add: example_answers_def)

lemma example_findBestMatch:
  "findBestMatch (JObject example_answers) example_rows = Inr (Some (example_rows ! 1))"
  by (simp add: example_rows_def example_answers_def findBestMatch_def lookup_def Let_def)

section \<open>Properties of overlapping and of separate requests\<close>





lemma getCachedData_begin_due:
  "getCachedData_begin e s =
     (if refresh_due e s then (None, s\<lparr>calls := ReadFile # calls s\<rparr>) else (cache s, s))"
  by (simp add: getCachedData_begin_def refresh_due_def split: option.splits)










lemma handle_rest_cache: "cache (snd (handle_rest r res s)) = cache s"
  by (cases r)
     (simp_all add: GET_rest_def POST_rest_def Let_def split: sum.splits option.splits)

lemma getCachedData_resume_cache_ok:
  assumes "cache_ok s"
  shows "cache_ok (snd (getCachedData_resume e s))"
proof (cases "loadAndProcessData_result e")
  case (Inl err)
  with assms show ?thesis by (simp add: getCachedData_resume_def)
next
  case (Inr c)
  then have "fst (loadAndProcessData e s) = Inr c" by (simp add: loadAndProcessData_fst)
  from loadAndProcessData_Inr [OF this] Inr show ?thesis
    by (simp add: getCachedData_resume_def cache_ok_def)
qed

lemma run_step_cache_ok:
  assumes "cache_ok (module_state sys)"
  shows "cache_ok (module_state (run_step st sys))"
proof (cases st)
  case (Arrive r e)
  obtain o1 s1 where b: "getCachedData_begin e (module_state sys) = (o1, s1)"
    by (cases "getCachedData_begin e (module_state sys)")
  then have c1: "cache s1 = cache (module_state sys)"
    by (auto simp: getCachedData_begin_due split: if_splits)
  show ?thesis
  proof (cases o1)
    case None
    with Arrive b c1 assms show ?thesis by (simp add: cache_ok_def)
  next
    case (Some c)
    obtain resp s2 where hr: "handle_rest r (Inr c) s1 = (resp, s2)"
      by (cases "handle_rest r (Inr c) s1")
    then have "cache s2 = cache s1" using handle_rest_cache [of r "Inr c" s1] by simp
    with Arrive b Some hr c1 assms show ?thesis by (simp add: cache_ok_def)
  qed
next
  case (Complete i)
  show ?thesis
  proof (cases "i < length (waiting sys)")
    case False
    with Complete assms show ?thesis by simp
  next
    case True
    obtain r e where w: "waiting sys ! i = (r, e)" by (cases "waiting sys ! i")
    obtain res s1 where rs: "getCachedData_resume e (module_state sys) = (res, s1)"
      by (cases "getCachedData_resume e (module_state sys)")
    obtain resp s2 where hr: "handle_rest r res s1 = (resp, s2)"
      by (cases "handle_rest r res s1")
    have "cache_ok s1"
      using getCachedData_resume_cache_ok [OF assms, of e] rs by simp
    moreover have "cache s2 = cache s1" using handle_rest_cache [of r res s1] hr by simp
    ultimately show ?thesis using Complete True w rs hr by (simp add: cache_ok_def)
  qed
qed

text \<open>Every state of the module has, if any, an entry that the loader made.\<close>

lemma reachable_cache_ok: "reachable s \<Longrightarrow> cache_ok s"
proof (induction rule: reachable.induct)
  case reachable_initial
  show ?case by (simp add: initial_def cache_ok_def)
next
  case (reachable_POST s req e)
  from reachable_POST.IH have "cache_ok (snd (getCachedData e s))"
    by (rule getCachedData_cache_ok)
  then show ?case by (simp add: cache_ok_def POST_cache)
next
  case (reachable_GET s e)
  from reachable_GET.IH show ?case by (simp add: GET_snd getCachedData_cache_ok)
next
  case (reachable_step s st w out)
  from reachable_step.IH
  show ?case using run_step_cache_ok [of "\<lparr>module_state = s, waiting = w, answered = out\<rparr>" st]
    by simp
qed


text \<open>The model on the rows with surplus fields and on the short row.\<close>

lemma surplus_GET:
  "fst (GET surplus_env initial) =
     \<lparr>status = 200, success = True, error = None, prediction = None,
      columns = Some [\<lparr>name = ''Mood'', type = categorical, options = [Str ''Sad'']\<rparr>,
                      \<lparr>name = ''__parsed_extra'', type = categorical,
                       options = [Arr 0 [''x''], Arr 1 [''x'']]\<rparr>]\<rparr>"
  by (simp add: surplus_env_def surplus_rows_def initial_def TIPS_def CACHE_DURATION_def
        GET_def getCachedData_def loadAndProcessData_def loadAndProcessData_result_def
        make_column_def Set_add_def has_key_def Object_keys_def Object_prototype_def
        lookup_def Let_def)

lemma short_GET:
  "fst (GET short_env initial) =
     \<lparr>status = 200, success = True, error = None, prediction = None,
      columns = Some [\<lparr>name = ''constructor'', type = categorical,
                       options = [Str ''a'', Proto ''constructor'']\<rparr>]\<rparr>"
  by (simp add: short_env_def short_rows_def initial_def TIPS_def CACHE_DURATION_def
        GET_def getCachedData_def loadAndProcessData_def loadAndProcessData_result_def
        make_column_def Set_add_def has_key_def Object_keys_def Object_prototype_def
        lookup_def Let_def)

section \<open>The claims\<close>

text \<open>
  C1. For a dataset with at least one row and a user answer set with at least one field,
  \<^verbatim>\<open>findBestMatch\<close> returns a row of the dataset whose fraction of exactly matched
  user fields (matched fields over supplied fields) is maximal among all rows;
  equivalently, no row of the dataset has a strictly higher count of exact matches.
\<close>

theorem findBestMatch_maximizes:
  assumes "rows \<noteq> []" "Object_entries userInput = Inr es" "es \<noteq> []"
  shows "\<exists>row \<in> set rows. findBestMatch userInput rows = Inr (Some row)
           \<and> (\<forall>r \<in> set rows. (of_nat (matches r es) / of_nat (length es) :: rat)
                                 \<le> of_nat (matches row es) / of_nat (length es))
           \<and> \<not> (\<exists>r \<in> set rows. matches row es < matches r es)"
proof -
  from findBestMatch_split [OF assms] obtain pre row post where h:
    "rows = pre @ row # post" "findBestMatch userInput rows = Inr (Some row)"
    "\<forall>r \<in> set pre. matches r es < matches row es"
    "\<forall>r \<in> set post. matches r es \<le> matches row es"
    by blast
  have le: "\<forall>r \<in> set rows. matches r es \<le> matches row es"
    using h(1,3,4) by (auto simp: less_imp_le)
  have "\<forall>r \<in> set rows. (of_nat (matches r es) / of_nat (length es) :: rat)
                                 \<le> of_nat (matches row es) / of_nat (length es)"
    using le by (simp add: divide_right_mono)
  moreover have "\<not> (\<exists>r \<in> set rows. matches row es < matches r es)"
    using le by (auto simp: not_less)
  moreover have "row \<in> set rows" using h(1) by simp
  ultimately show ?thesis using h(2) by blast
qed

text \<open>
  On the small dataset the answers \<^verbatim>\<open>Mood: Sad, Sleep: Good\<close> are both matched by the
  second row only, which is returned.
\<close>

theorem findBestMatch_maximizes_witness:
  "example_rows \<noteq> [] \<and> Object_entries (JObject example_answers) = Inr example_answers
   \<and> example_answers \<noteq> []
   \<and> (\<exists>row \<in> set example_rows.
         findBestMatch (JObject example_answers) example_rows = Inr (Some row)
         \<and> (\<forall>r \<in> set example_rows.
               (of_nat (matches r example_answers) / of_nat (length example_answers) :: rat)
                 \<le> of_nat (matches row example_answers) / of_nat (length example_answers))
         \<and> \<not> (\<exists>r \<in> set example_rows.
                 matches row example_answers < matches r example_answers))
   \<and> findBestMatch (JObject example_answers) example_rows = Inr (Some (example_rows ! 1))
   \<and> matches (example_rows ! 1) example_answers = 2"
proof -
  note h1 = example_rows_nonempty
  have h2: "Object_entries (JObject example_answers) = Inr example_answers" by simp
  note h3 = example_answers_nonempty
  have m: "matches (example_rows ! 1) example_answers = 2"
    by (simp add: example_rows_def example_answers_def matches_def lookup_def)
  note t = findBestMatch_maximizes [OF h1 h2 h3]
  from h1 h2 h3 t example_findBestMatch m show ?thesis by (intro conjI)
qed

text \<open>
  C2. For a \<^verbatim>\<open>POST\<close> request whose body parses to an object, when the dataset loads
  (or is already in the cache), the handler answers with success and status 200, and
  the prediction is the value of the tip column of the row that \<^verbatim>\<open>findBestMatch\<close>
  selects over the cached dataset.
\<close>

theorem POST_returns_best_tip:
  assumes "reachable s" "body req = Some (JObject kvs)" "fst (getCachedData e s) = Inr c"
  shows "\<exists>row \<in> set (mlData c).
           findBestMatch (JObject kvs) (mlData c) = Inr (Some row)
           \<and> fst (POST req e s) =
                \<lparr>status = 200, success = True, error = None,
                 prediction = lookup row TIPS, columns = None\<rparr>
           \<and> cache (snd (POST req e s)) = Some c"
proof -
  have "valid_cache c"
    using getCachedData_Inr(2) [OF assms(3)] reachable_cache_ok [OF assms(1)] .
  then have "mlData c \<noteq> []" by (rule valid_cache_nonempty)
  then obtain row where row: "row \<in> set (mlData c)"
      "findBestMatch (JObject kvs) (mlData c) = Inr (Some row)"
    using findBestMatch_Some [of "mlData c" "JObject kvs" kvs] by auto
  have "POST req e s =
           (\<lparr>status = 200, success = True, error = None,
             prediction = lookup row TIPS, columns = None\<rparr>,
            (snd (getCachedData e s))\<lparr>calls := FindBestMatch # calls (snd (getCachedData e s))\<rparr>)"
    using assms(2) row(2) by (intro POST_object_or_array [OF assms(3)]) simp_all
  then show ?thesis
    using row getCachedData_Inr(1) [OF assms(3)] by simp
qed

theorem POST_returns_best_tip_witness:
  "reachable initial
   \<and> body \<lparr>body = Some (JObject example_answers)\<rparr> = Some (JObject example_answers)
   \<and> fst (getCachedData example_env initial) = Inr example_cache
   \<and> findBestMatch (JObject example_answers) (mlData example_cache)
       = Inr (Some (example_rows ! 1))
   \<and> fst (POST \<lparr>body = Some (JObject example_answers)\<rparr> example_env initial) =
        \<lparr>status = 200, success = True, error = None,
         prediction = Some (Str ''Walk''), columns = None\<rparr>
   \<and> cache (snd (POST \<lparr>body = Some (JObject example_answers)\<rparr> example_env initial))
        = Some example_cache"
proof -
  let ?req = "\<lparr>body = Some (JObject example_answers)\<rparr>"
  note h1 = reachable_initial
  have h2: "body ?req = Some (JObject example_answers)" by simp
  note h3 = example_getCachedData
  have f: "findBestMatch (JObject example_answers) (mlData example_cache)
             = Inr (Some (example_rows ! 1))"
    using example_findBestMatch by (simp add: example_cache_def)
  have tip: "lookup (example_rows ! 1) TIPS = Some (Str ''Walk'')"
    by (simp add: example_rows_def lookup_def TIPS_def)
  from POST_returns_best_tip [OF h1 h2 h3] obtain row where row:
    "findBestMatch (JObject example_answers) (mlData example_cache) = Inr (Some row)"
    "fst (POST ?req example_env initial) =
       \<lparr>status = 200, success = True, error = None,
        prediction = lookup row TIPS, columns = None\<rparr>"
    "cache (snd (POST ?req example_env initial)) = Some example_cache"
    by blast
  from row(1) f have "row = example_rows ! 1" by simp
  with row(2) tip have p: "fst (POST ?req example_env initial) =
       \<lparr>status = 200, success = True, error = None,
        prediction = Some (Str ''Walk''), columns = None\<rparr>"
    by simp
  from h1 h2 h3 f p row(3) show ?thesis by (intro conjI)
qed







text \<open>
  C5. If a refresh is due and reading or processing the file fails, \<^verbatim>\<open>GET\<close> and
  \<^verbatim>\<open>POST\<close> both answer with success false and status 500, and the variable
  \<^verbatim>\<open>cache\<close> is after the request what it was before.
\<close>

theorem load_failure_keeps_cache:
  assumes "refresh_due e s" "fst (loadAndProcessData e s) = Inl err"
  shows "fst (GET e s) =
           \<lparr>status = 500, success = False, error = Some ''Failed to load form structure'',
            prediction = None, columns = None\<rparr>
         \<and> cache (snd (GET e s)) = cache s
         \<and> fst (POST req e s) =
           \<lparr>status = 500, success = False, error = Some ''Failed to generate recommendation'',
            prediction = None, columns = None\<rparr>
         \<and> cache (snd (POST req e s)) = cache s"
  using getCachedData_fails [OF assms]
  by (simp add: GET_def POST_def)

text \<open>
  The file has no rows when the entry of the cache is older than an hour: both handlers
  answer 500 and the old entry stays.
\<close>

theorem load_failure_keeps_cache_witness:
  "refresh_due empty_env example_server
   \<and> fst (loadAndProcessData empty_env example_server)
       = Inl (Error ''Invalid data structure in CSV'')
   \<and> status (fst (GET empty_env example_server)) = 500
   \<and> \<not> success (fst (GET empty_env example_server))
   \<and> cache (snd (GET empty_env example_server)) = Some example_cache
   \<and> status (fst (POST \<lparr>body = Some (JObject example_answers)\<rparr> empty_env example_server)) = 500
   \<and> \<not> success (fst (POST \<lparr>body = Some (JObject example_answers)\<rparr> empty_env example_server))
   \<and> cache (snd (POST \<lparr>body = Some (JObject example_answers)\<rparr> empty_env example_server))
       = Some example_cache"
proof -
  have h1: "refresh_due empty_env example_server"
    by (simp add: example_defs empty_env_def refresh_due_def)
  have h2: "fst (loadAndProcessData empty_env example_server)
              = Inl (Error ''Invalid data structure in CSV'')"
    by (simp add: example_defs empty_env_def loadAndProcessData_def loadAndProcessData_result_def)
  have h3: "cache example_server = Some example_cache"
    by (simp add: example_server_def)
  from load_failure_keeps_cache [OF h1 h2, of "\<lparr>body = Some (JObject example_answers)\<rparr>"] h1 h2 h3
  show ?thesis by simp
qed

text \<open>
  C6, as the code has it. When the file is read, loading fails exactly if the parsed
  CSV has no data row or its first row lacks the tip column; then a request that needs
  the refresh is answered with an error. In every other case with the file read,
  loading succeeds with the parsed rows as dataset, and a refresh stores the entry in
  the cache.
\<close>

theorem loadAndProcessData_fails_when:
  assumes "csv e = Some rows"
  shows "((\<exists>err. fst (loadAndProcessData e s) = Inl err) \<longleftrightarrow>
            rows = [] \<or> \<not> has_key TIPS (hd rows))
         \<and> (\<not> (rows = [] \<or> \<not> has_key TIPS (hd rows)) \<longrightarrow>
              (\<exists>c. fst (loadAndProcessData e s) = Inr c \<and> mlData c = rows
                   \<and> (refresh_due e s \<longrightarrow> cache (snd (getCachedData e s)) = Some c)))
         \<and> ((rows = [] \<or> \<not> has_key TIPS (hd rows)) \<and> refresh_due e s \<longrightarrow>
              \<not> success (fst (GET e s)) \<and> \<not> success (fst (POST req e s)))"
proof -
  have iff: "(\<exists>err. fst (loadAndProcessData e s) = Inl err) \<longleftrightarrow>
            rows = [] \<or> \<not> has_key TIPS (hd rows)"
    using assms by (cases rows) (simp_all add: loadAndProcessData_fails_iff)
  have ok: "\<exists>c. fst (loadAndProcessData e s) = Inr c \<and> mlData c = rows
                   \<and> (refresh_due e s \<longrightarrow> cache (snd (getCachedData e s)) = Some c)"
    if "\<not> (rows = [] \<or> \<not> has_key TIPS (hd rows))"
  proof -
    from that iff obtain c where c: "fst (loadAndProcessData e s) = Inr c"
      by (cases "fst (loadAndProcessData e s)") auto
    from loadAndProcessData_Inr [OF c] assms have "mlData c = rows" by simp
    moreover have "refresh_due e s \<longrightarrow> cache (snd (getCachedData e s)) = Some c"
      using c by (simp add: getCachedData_refresh)
    ultimately show ?thesis using c by blast
  qed
  have bad: "\<not> success (fst (GET e s)) \<and> \<not> success (fst (POST req e s))"
    if "rows = [] \<or> \<not> has_key TIPS (hd rows)" "refresh_due e s"
  proof -
    from that(1) iff obtain err where "fst (loadAndProcessData e s) = Inl err" by blast
    from getCachedData_fails [OF that(2) this] show ?thesis
      by (simp add: GET_def POST_def)
  qed
  from iff ok bad show ?thesis by blast
qed

text \<open>
  The small dataset loads into the empty cache; the file without rows does not, and the
  request that needed it fails.
\<close>

theorem loadAndProcessData_fails_when_witness:
  "csv example_env = Some example_rows
   \<and> \<not> (example_rows = [] \<or> \<not> has_key TIPS (hd example_rows))
   \<and> refresh_due example_env initial
   \<and> (\<exists>c. fst (loadAndProcessData example_env initial) = Inr c \<and> mlData c = example_rows
          \<and> cache (snd (getCachedData example_env initial)) = Some c)
   \<and> csv empty_env = Some []
   \<and> refresh_due empty_env initial
   \<and> (\<exists>err. fst (loadAndProcessData empty_env initial) = Inl err)
   \<and> \<not> success (fst (GET empty_env initial))"
proof -
  have h1: "csv example_env = Some example_rows" by (simp add: example_env_def)
  have h2: "\<not> (example_rows = [] \<or> \<not> has_key TIPS (hd example_rows))"
    by (simp add: example_rows_def has_key_def Object_keys_def TIPS_def)
  have h3: "refresh_due example_env initial" by (simp add: refresh_due_def initial_def)
  have h4: "csv empty_env = Some []" by (simp add: empty_env_def)
  have h5: "refresh_due empty_env initial" by (simp add: refresh_due_def initial_def)
  note good = loadAndProcessData_fails_when [OF h1, of initial "\<lparr>body = None\<rparr>"]
  note bad = loadAndProcessData_fails_when [OF h4, of initial "\<lparr>body = None\<rparr>"]
  from good h2 h3 have a: "\<exists>c. fst (loadAndProcessData example_env initial) = Inr c
          \<and> mlData c = example_rows
          \<and> cache (snd (getCachedData example_env initial)) = Some c"
    by blast
  from bad h5 have b: "(\<exists>err. fst (loadAndProcessData empty_env initial) = Inl err)
          \<and> \<not> success (fst (GET empty_env initial))"
    by blast
  from h1 h2 h3 h4 h5 a b show ?thesis by blast
qed

text \<open>
  C6 as stated fails where the file cannot be read: there is no parsed CSV, so neither
  condition of the claim holds, and loading fails all the same.
\<close>

theorem loadAndProcessData_fails_counterexample:
  "csv unreadable_env = None
   \<and> fst (loadAndProcessData unreadable_env initial) = Inl FsError
   \<and> GET unreadable_env initial =
       (\<lparr>status = 500, success = False, error = Some ''Failed to load form structure'',
         prediction = None, columns = None\<rparr>, \<lparr>cache = None, calls = [ReadFile]\<rparr>)"
  by (simp add: example_defs unreadable_env_def program_defs)



text \<open>
  C8. For a dataset with at least one row and an empty user answer set, where the
  normalizing divisor is zero, \<^verbatim>\<open>findBestMatch\<close> returns the first row of the dataset,
  and \<^verbatim>\<open>POST\<close>, whenever that dataset is the one it gets from the cache, answers with
  success, status 200 and that row's tip, not with an error.
\<close>

theorem findBestMatch_no_fields:
  assumes "rows \<noteq> []"
  shows "findBestMatch (JObject []) rows = Inr (Some (hd rows))
         \<and> (\<forall>e s c. fst (getCachedData e s) = Inr c \<and> mlData c = rows \<longrightarrow>
               fst (POST \<lparr>body = Some (JObject [])\<rparr> e s) =
                 \<lparr>status = 200, success = True, error = None,
                  prediction = lookup (hd rows) TIPS, columns = None\<rparr>)"
proof -
  have fb: "findBestMatch (JObject []) rows = Inr (Some (hd rows))"
    using assms by (cases rows) (simp_all add: findBestMatch_def scan_rows_no_fields)
  have "fst (POST \<lparr>body = Some (JObject [])\<rparr> e s) =
                 \<lparr>status = 200, success = True, error = None,
                  prediction = lookup (hd rows) TIPS, columns = None\<rparr>"
    if g: "fst (getCachedData e s) = Inr c" and m: "mlData c = rows" for e s c
  proof -
    have "findBestMatch (JObject []) (mlData c) = Inr (Some (hd rows))"
      using fb m by simp
    from POST_object_or_array [OF g _ _ _ this, of "\<lparr>body = Some (JObject [])\<rparr>"]
    show ?thesis by simp
  qed
  with fb show ?thesis by blast
qed

text \<open>
  On the small dataset, loaded by the request itself, the empty object gets the tip of
  the first row.
\<close>

theorem findBestMatch_no_fields_witness:
  "example_rows \<noteq> []
   \<and> fst (getCachedData example_env initial) = Inr example_cache
   \<and> mlData example_cache = example_rows
   \<and> findBestMatch (JObject []) example_rows = Inr (Some (hd example_rows))
   \<and> fst (POST \<lparr>body = Some (JObject [])\<rparr> example_env initial) =
         \<lparr>status = 200, success = True, error = None,
          prediction = Some (Str ''Rest''), columns = None\<rparr>"
proof -
  note h1 = example_rows_nonempty
  note h2 = example_getCachedData
  have h3: "mlData example_cache = example_rows" by (simp add: example_cache_def)
  have tip: "lookup (hd example_rows) TIPS = Some (Str ''Rest'')"
    by (simp add: example_rows_def lookup_def TIPS_def)
  note t = findBestMatch_no_fields [OF h1]
  note t1 = t [THEN conjunct1]
  from t [THEN conjunct2] h2 h3
  have "fst (POST \<lparr>body = Some (JObject [])\<rparr> example_env initial) =
         \<lparr>status = 200, success = True, error = None,
          prediction = lookup (hd example_rows) TIPS, columns = None\<rparr>"
    by blast
  with tip have p: "fst (POST \<lparr>body = Some (JObject [])\<rparr> example_env initial) =
         \<lparr>status = 200, success = True, error = None,
          prediction = Some (Str ''Rest''), columns = None\<rparr>"
    by simp
  from h1 h2 h3 t1 p show ?thesis by (intro conjI)
qed

text \<open>
  C9. For a dataset with at least one row and a user answer set with at least one field,
  when several rows reach the maximal score \<^verbatim>\<open>findBestMatch\<close> returns the earliest
  of them in dataset order: the row returned scores at least as much as every row and
  strictly more than every row before it.
\<close>

theorem findBestMatch_earliest:
  assumes "rows \<noteq> []" "Object_entries userInput = Inr es" "es \<noteq> []"
  shows "\<exists>i < length rows. findBestMatch userInput rows = Inr (Some (rows ! i))
           \<and> (\<forall>j < length rows. matches (rows ! j) es \<le> matches (rows ! i) es)
           \<and> (\<forall>j < i. matches (rows ! j) es < matches (rows ! i) es)"
proof -
  from findBestMatch_split [OF assms] obtain pre row post where h:
    "rows = pre @ row # post" "findBestMatch userInput rows = Inr (Some row)"
    "\<forall>r \<in> set pre. matches r es < matches row es"
    "\<forall>r \<in> set post. matches r es \<le> matches row es"
    by blast
  let ?i = "length pre"
  have i: "?i < length rows" "rows ! ?i = row" using h(1) by simp_all
  have le: "\<forall>r \<in> set rows. matches r es \<le> matches row es"
    using h(1,3,4) by (auto simp: less_imp_le)
  have "\<forall>j < length rows. matches (rows ! j) es \<le> matches (rows ! ?i) es"
    using le i(2) by simp
  moreover have "\<forall>j < ?i. matches (rows ! j) es < matches (rows ! ?i) es"
    using h(1,3) i(2) by (simp add: nth_append)
  ultimately show ?thesis using i h(2) by blast
qed

text \<open>
  On the small dataset the single answer \<^verbatim>\<open>Mood: Sad\<close> is matched by the first and
  by the second row alike; the first is returned.
\<close>

theorem findBestMatch_earliest_witness:
  "example_rows \<noteq> []
   \<and> Object_entries (JObject [(''Mood'', JString ''Sad'')]) = Inr [(''Mood'', JString ''Sad'')]
   \<and> [(''Mood'', JString ''Sad'')] \<noteq> []
   \<and> (\<exists>i < length example_rows.
         findBestMatch (JObject [(''Mood'', JString ''Sad'')]) example_rows
           = Inr (Some (example_rows ! i))
         \<and> (\<forall>j < length example_rows.
               matches (example_rows ! j) [(''Mood'', JString ''Sad'')]
                 \<le> matches (example_rows ! i) [(''Mood'', JString ''Sad'')])
         \<and> (\<forall>j < i. matches (example_rows ! j) [(''Mood'', JString ''Sad'')]
                        < matches (example_rows ! i) [(''Mood'', JString ''Sad'')]))
   \<and> matches (example_rows ! 0) [(''Mood'', JString ''Sad'')] = 1
   \<and> matches (example_rows ! 1) [(''Mood'', JString ''Sad'')] = 1
   \<and> findBestMatch (JObject [(''Mood'', JString ''Sad'')]) example_rows
       = Inr (Some (example_rows ! 0))"
proof -
  note h1 = example_rows_nonempty
  have h2: "Object_entries (JObject [(''Mood'', JString ''Sad'')])
              = Inr [(''Mood'', JString ''Sad'')]" by simp
  have h3: "[(''Mood'', JString ''Sad'')] \<noteq> []" by simp
  have m0: "matches (example_rows ! 0) [(''Mood'', JString ''Sad'')] = 1"
    by (simp add: example_rows_def matches_def lookup_def)
  have m1: "matches (example_rows ! 1) [(''Mood'', JString ''Sad'')] = 1"
    by (simp add: example_rows_def matches_def lookup_def)
  have r: "findBestMatch (JObject [(''Mood'', JString ''Sad'')]) example_rows
             = Inr (Some (example_rows ! 0))"
    by (simp add: example_rows_def findBestMatch_def lookup_def Let_def)
  note t = findBestMatch_earliest [OF h1 h2 h3]
  from h1 h2 h3 t m0 m1 r show ?thesis by (intro conjI)
qed

text \<open>
  C10, as the code has it. When the dataset loads (or is already in the cache), a
  \<^verbatim>\<open>POST\<close> whose body parses to \<^verbatim>\<open>null\<close>, a boolean, a number or a string is
  answered with success false, the error \<^verbatim>\<open>Invalid input format\<close> and status 400,
  and \<^verbatim>\<open>findBestMatch\<close> is not invoked. A body that parses to an array passes the
  check as an object does: \<^verbatim>\<open>findBestMatch\<close> is invoked and the answer has status 200.
  A body that is not JSON is answered with status 500 and the error
  \<^verbatim>\<open>Failed to generate recommendation\<close>.
\<close>

theorem POST_invalid_input:
  "(fst (getCachedData e s) = Inr c \<and> body req = Some v
      \<and> (\<forall>kvs. v \<noteq> JObject kvs) \<and> (\<forall>xs. v \<noteq> JArray xs) \<longrightarrow>
      POST req e s =
        (\<lparr>status = 400, success = False, error = Some ''Invalid input format'',
          prediction = None, columns = None\<rparr>, snd (getCachedData e s))
      \<and> count_list (calls (snd (POST req e s))) FindBestMatch
          = count_list (calls s) FindBestMatch)
   \<and> (reachable s \<and> fst (getCachedData e s) = Inr c \<and> body req = Some (JArray xs) \<longrightarrow>
        status (fst (POST req e s)) = 200 \<and> success (fst (POST req e s))
        \<and> count_list (calls (snd (POST req e s))) FindBestMatch
            = count_list (calls s) FindBestMatch + 1)
   \<and> (body req = None \<longrightarrow>
        fst (POST req e s) =
          \<lparr>status = 500, success = False, error = Some ''Failed to generate recommendation'',
           prediction = None, columns = None\<rparr>)"
proof -
  obtain r s1 where g: "getCachedData e s = (r, s1)" by (cases "getCachedData e s")
  have cs: "count_list (calls s1) FindBestMatch = count_list (calls s) FindBestMatch"
    using getCachedData_calls [of e s] g by simp
  have a: "POST req e s =
        (\<lparr>status = 400, success = False, error = Some ''Invalid input format'',
          prediction = None, columns = None\<rparr>, snd (getCachedData e s))
      \<and> count_list (calls (snd (POST req e s))) FindBestMatch
          = count_list (calls s) FindBestMatch"
    if "fst (getCachedData e s) = Inr c" "body req = Some v"
      "\<forall>kvs. v \<noteq> JObject kvs" "\<forall>xs. v \<noteq> JArray xs"
    using that g cs by (cases v) (simp_all add: POST_def)
  have b: "status (fst (POST req e s)) = 200 \<and> success (fst (POST req e s))
        \<and> count_list (calls (snd (POST req e s))) FindBestMatch
            = count_list (calls s) FindBestMatch + 1"
    if "reachable s" "fst (getCachedData e s) = Inr c" "body req = Some (JArray xs)"
  proof -
    have "valid_cache c"
      using getCachedData_Inr(2) [OF that(2)] reachable_cache_ok [OF that(1)] .
    then have "mlData c \<noteq> []" by (rule valid_cache_nonempty)
    then obtain row where row: "findBestMatch (JArray xs) (mlData c) = Inr (Some row)"
      using findBestMatch_Some [of "mlData c" "JArray xs"] by auto
    have "POST req e s =
           (\<lparr>status = 200, success = True, error = None,
             prediction = lookup row TIPS, columns = None\<rparr>,
            (snd (getCachedData e s))\<lparr>calls := FindBestMatch # calls (snd (getCachedData e s))\<rparr>)"
      using that(3) row by (intro POST_object_or_array [OF that(2)]) simp_all
    then show ?thesis using g cs by simp
  qed
  have c: "fst (POST req e s) =
          \<lparr>status = 500, success = False, error = Some ''Failed to generate recommendation'',
           prediction = None, columns = None\<rparr>" if "body req = None"
    using that g by (cases r) (simp_all add: POST_def)
  from a b c show ?thesis by blast
qed

text \<open>
  On the small dataset: the body \<^verbatim>\<open>"Sad"\<close> is refused with 400 and the matcher is
  not called; the body \<^verbatim>\<open>["Sad"]\<close> is matched; a body that is not JSON gives 500.
\<close>

theorem POST_invalid_input_witness:
  "fst (getCachedData example_env initial) = Inr example_cache
   \<and> reachable initial
   \<and> POST \<lparr>body = Some (JString ''Sad'')\<rparr> example_env initial =
       (\<lparr>status = 400, success = False, error = Some ''Invalid input format'',
         prediction = None, columns = None\<rparr>, snd (getCachedData example_env initial))
   \<and> count_list (calls (snd (POST \<lparr>body = Some (JString ''Sad'')\<rparr> example_env initial)))
         FindBestMatch = count_list (calls initial) FindBestMatch
   \<and> status (fst (POST \<lparr>body = Some (JArray [JString ''Sad''])\<rparr> example_env initial)) = 200
   \<and> count_list (calls (snd (POST \<lparr>body = Some (JArray [JString ''Sad''])\<rparr> example_env initial)))
         FindBestMatch = count_list (calls initial) FindBestMatch + 1
   \<and> fst (POST \<lparr>body = None\<rparr> example_env initial) =
       \<lparr>status = 500, success = False, error = Some ''Failed to generate recommendation'',
        prediction = None, columns = None\<rparr>"
proof -
  note h1 = example_getCachedData
  note h2 = reachable_initial
  have b1: "body \<lparr>body = Some (JString ''Sad'')\<rparr> = Some (JString ''Sad'')" by simp
  have b2: "\<forall>kvs. JString ''Sad'' \<noteq> JObject kvs" by simp
  have b3: "\<forall>xs. JString ''Sad'' \<noteq> JArray xs" by simp
  have b4: "body \<lparr>body = Some (JArray [JString ''Sad''])\<rparr> = Some (JArray [JString ''Sad''])"
    by simp
  have b5: "body \<lparr>body = None\<rparr> = None" by simp
  note refused = POST_invalid_input
    [of example_env initial example_cache "\<lparr>body = Some (JString ''Sad'')\<rparr>" "JString ''Sad''"]
  note matched = POST_invalid_input
    [of example_env initial example_cache "\<lparr>body = Some (JArray [JString ''Sad''])\<rparr>" _
        "[JString ''Sad'']"]
  note not_json = POST_invalid_input [of example_env initial _ "\<lparr>body = None\<rparr>"]
  from refused h1 b1 b2 b3 have a:
    "POST \<lparr>body = Some (JString ''Sad'')\<rparr> example_env initial =
       (\<lparr>status = 400, success = False, error = Some ''Invalid input format'',
         prediction = None, columns = None\<rparr>, snd (getCachedData example_env initial))
     \<and> count_list (calls (snd (POST \<lparr>body = Some (JString ''Sad'')\<rparr> example_env initial)))
         FindBestMatch = count_list (calls initial) FindBestMatch"
    by blast
  from matched h1 h2 b4 have b:
    "status (fst (POST \<lparr>body = Some (JArray [JString ''Sad''])\<rparr> example_env initial)) = 200
     \<and> count_list (calls (snd (POST \<lparr>body = Some (JArray [JString ''Sad''])\<rparr> example_env initial)))
         FindBestMatch = count_list (calls initial) FindBestMatch + 1"
    by blast
  from not_json b5 have c:
    "fst (POST \<lparr>body = None\<rparr> example_env initial) =
       \<lparr>status = 500, success = False, error = Some ''Failed to generate recommendation'',
        prediction = None, columns = None\<rparr>"
    by blast
  from h1 h2 a b c show ?thesis by blast
qed

text \<open>
  C10 as stated fails for an array, which is a JSON value that is not a JSON object:
  with the dataset loaded, the body \<^verbatim>\<open>["Sad"]\<close> is not refused; the matcher is
  invoked and the answer is a success with the tip of the first row.
\<close>

theorem POST_invalid_input_counterexample:
  "POST \<lparr>body = Some (JArray [JString ''Sad''])\<rparr> example_env initial =
     (\<lparr>status = 200, success = True, error = None, prediction = Some (Str ''Rest''),
       columns = None\<rparr>,
      \<lparr>cache = Some example_cache, calls = [FindBestMatch, ReadFile]\<rparr>)"
  by (simp add: example_defs program_defs)

end
